theory Spec2Isabelle
  imports Complex_Main
begin

section \<open>The escape-time computation of \<^verbatim>\<open>mandelbrotset.py\<close>\<close>

text \<open>
  The function \<^verbatim>\<open>mandelbrot_set(xmin, xmax, ymin, ymax, width, height, max_iter)\<close>
  builds a grid of complex samples with \<^verbatim>\<open>np.linspace\<close>, iterates
  \<^verbatim>\<open>z = z**2 + c\<close> on the cells selected by a boolean mask, and returns the integer
  array \<^verbatim>\<open>div_time\<close>.

  Conventions of the embedding.
  \<^item> A two-dimensional NumPy array of shape \<open>(height, width)\<close> is a list of \<open>height\<close>
    rows, each a list of \<open>width\<close> cells.
  \<^item> \<^verbatim>\<open>float64\<close> and \<^verbatim>\<open>complex128\<close> values are the exact numbers of \<^typ>\<open>real\<close> and
    \<^typ>\<open>complex\<close>: rounding, overflow, infinities and NaN are not part of the model.
  \<^item> \<^verbatim>\<open>width\<close>, \<^verbatim>\<open>height\<close> and \<^verbatim>\<open>max_iter\<close> are Python integers, hence \<^typ>\<open>int\<close>.
  \<^item> The only exception the function can raise on such arguments is the
    \<^verbatim>\<open>ValueError\<close> of \<^verbatim>\<open>np.linspace\<close> for a negative number of samples.
\<close>

datatype error = ValueError

type_synonym 'a grid = "'a list list"

subsection \<open>\<^verbatim>\<open>np.linspace\<close>\<close>

text \<open>
  \<^verbatim>\<open>np.linspace(start, stop, num)\<close> with the default \<^verbatim>\<open>endpoint=True\<close>, after NumPy's
  implementation: \<^verbatim>\<open>div = num - 1\<close>, \<^verbatim>\<open>delta = stop - start\<close>,
  \<^verbatim>\<open>y = arange(0, num)\<close>; for \<^verbatim>\<open>div > 0\<close> the samples are \<^verbatim>\<open>y * step\<close> with
  \<^verbatim>\<open>step = delta / div\<close> (or \<^verbatim>\<open>y / div * delta\<close> when the step is zero), otherwise
  \<^verbatim>\<open>y * delta\<close>; then \<^verbatim>\<open>y += start\<close>, and for \<^verbatim>\<open>num > 1\<close> the last sample is
  overwritten with \<^verbatim>\<open>stop\<close>. A negative \<^verbatim>\<open>num\<close> raises \<^verbatim>\<open>ValueError\<close>.
\<close>

definition linspace :: "real \<Rightarrow> real \<Rightarrow> int \<Rightarrow> error + real list" where
  "linspace start stop num =
     (if num < 0 then Inl ValueError
      else
        let dv = num - 1;
            delta = stop - start;
            y0 = map real [0..<nat num];
            y1 = (if dv > 0 then
                    (let step = delta / real_of_int dv
                     in if step = 0 then map (\<lambda>v. v / real_of_int dv * delta) y0
                        else map (\<lambda>v. v * step) y0)
                  else map (\<lambda>v. v * delta) y0);
            y2 = map (\<lambda>v. v + start) y1
        in Inr (if num > 1 then y2[nat num - 1 := stop] else y2))"

subsection \<open>The sample grid (lines 6--9)\<close>

text \<open>
  \<^verbatim>\<open>c = r1 + r2[:,None] * 1j\<close>: broadcasting a row vector of length \<open>width\<close> against a
  column vector of length \<open>height\<close> gives shape \<open>(height, width)\<close>, with
  \<open>c[r][k] = r1[k] + r2[r] * 1j\<close>.
\<close>

definition broadcast_grid :: "real list \<Rightarrow> real list \<Rightarrow> complex grid" where
  "broadcast_grid r1 r2 =
     map (\<lambda>y. map (\<lambda>x. complex_of_real x + complex_of_real y * \<i>) r1) r2"

definition sample_grid ::
  "real \<Rightarrow> real \<Rightarrow> real \<Rightarrow> real \<Rightarrow> int \<Rightarrow> int \<Rightarrow> error + complex grid" where
  "sample_grid xmin xmax ymin ymax width height =
     (case linspace xmin xmax width of
        Inl e \<Rightarrow> Inl e
      | Inr r1 \<Rightarrow>
          (case linspace ymin ymax height of
             Inl e \<Rightarrow> Inl e
           | Inr r2 \<Rightarrow> Inr (broadcast_grid r1 r2)))"

subsection \<open>The working arrays and one pass of the loop body (lines 12--30)\<close>

record state =
  st_z :: "complex grid"
  st_div_time :: "int grid"
  st_mask :: "bool grid"

text \<open>Element-wise combination of arrays of the same shape.\<close>

definition grid_map :: "('a \<Rightarrow> 'b) \<Rightarrow> 'a grid \<Rightarrow> 'b grid" where
  "grid_map f A = map (map f) A"

definition grid_map2 :: "('a \<Rightarrow> 'b \<Rightarrow> 'c) \<Rightarrow> 'a grid \<Rightarrow> 'b grid \<Rightarrow> 'c grid" where
  "grid_map2 f A B = map2 (map2 f) A B"

definition grid_map3 ::
  "('a \<Rightarrow> 'b \<Rightarrow> 'c \<Rightarrow> 'd) \<Rightarrow> 'a grid \<Rightarrow> 'b grid \<Rightarrow> 'c grid \<Rightarrow> 'd grid" where
  "grid_map3 f A B C = grid_map2 (\<lambda>a (b, c). f a b c) A (grid_map2 Pair B C)"

text \<open>\<^verbatim>\<open>mask.any()\<close>\<close>

definition grid_any :: "bool grid \<Rightarrow> bool" where
  "grid_any M = list_ex (list_ex (\<lambda>m. m)) M"

text \<open>
  \<^verbatim>\<open>np.zeros_like(c)\<close>, \<^verbatim>\<open>np.zeros(z.shape, dtype=int)\<close> and
  \<^verbatim>\<open>np.full(c.shape, True, dtype=bool)\<close>.
\<close>

definition init_state :: "complex grid \<Rightarrow> state" where
  "init_state c =
     \<lparr> st_z = grid_map (\<lambda>_. 0) c,
       st_div_time = grid_map (\<lambda>_. 0) c,
       st_mask = grid_map (\<lambda>_. True) c \<rparr>"

text \<open>
  The escape test \<^verbatim>\<open>np.abs(z) > 2.0\<close> on one cell. The magnitude is
  \<open>sqrt (re\<^sup>2 + im\<^sup>2)\<close>; it is evaluated by comparing the squares
  (\<open>exceeds_threshold_code\<close> below).
\<close>

definition exceeds_threshold :: "complex \<Rightarrow> bool" where
  "exceeds_threshold zv = (2 < cmod zv)"

text \<open>
  One pass of the body for the loop index \<open>i\<close>:
  \<^item> \<^verbatim>\<open>z[mask] = z[mask]**2 + c[mask]\<close>;
  \<^item> \<^verbatim>\<open>diverged = np.greater(np.abs(z), 2.0, out=np.full(c.shape, False), where=mask)\<close>:
    the comparison where the mask holds, \<^verbatim>\<open>False\<close> elsewhere;
  \<^item> \<^verbatim>\<open>div_time[diverged] = i\<close>;
  \<^item> \<^verbatim>\<open>mask[diverged] = False\<close>.
\<close>

definition loop_body :: "complex grid \<Rightarrow> int \<Rightarrow> state \<Rightarrow> state" where
  "loop_body c i s =
     (let z' = grid_map3 (\<lambda>m zv cv. if m then zv\<^sup>2 + cv else zv) (st_mask s) (st_z s) c;
          diverged = grid_map2 (\<lambda>m zv. if m then exceeds_threshold zv else False) (st_mask s) z';
          div_time' = grid_map2 (\<lambda>d t. if d then i else t) diverged (st_div_time s);
          mask' = grid_map2 (\<lambda>d m. if d then False else m) diverged (st_mask s)
      in \<lparr> st_z = z', st_div_time = div_time', st_mask = mask' \<rparr>)"

subsection \<open>The loop (lines 20--33) and the function\<close>

text \<open>
  \<^verbatim>\<open>for i in range(max_iter)\<close> with \<^verbatim>\<open>if not mask.any(): break\<close> at the end of the
  body. \<open>iterate c i n s\<close> runs the passes \<open>i, i + 1, \<dots>, i + n - 1\<close> from the state
  \<open>s\<close>, unless the break leaves the loop before.
\<close>

fun iterate :: "complex grid \<Rightarrow> nat \<Rightarrow> nat \<Rightarrow> state \<Rightarrow> state" where
  "iterate c i 0 s = s"
| "iterate c i (Suc n) s =
     (let s' = loop_body c (int i) s
      in if \<not> grid_any (st_mask s') then s' else iterate c (Suc i) n s')"

text \<open>\<^verbatim>\<open>range(max_iter)\<close> is empty for \<^verbatim>\<open>max_iter <= 0\<close>, hence \<open>nat max_iter\<close> passes.\<close>

definition mandelbrot_set ::
  "real \<Rightarrow> real \<Rightarrow> real \<Rightarrow> real \<Rightarrow> int \<Rightarrow> int \<Rightarrow> int \<Rightarrow> error + int grid" where
  "mandelbrot_set xmin xmax ymin ymax width height max_iter =
     (case sample_grid xmin xmax ymin ymax width height of
        Inl e \<Rightarrow> Inl e
      | Inr c \<Rightarrow> Inr (st_div_time (iterate c 0 (nat max_iter) (init_state c))))"

text \<open>The same loop without the break at line 33: every pass is run.\<close>

fun iterate_full :: "complex grid \<Rightarrow> nat \<Rightarrow> nat \<Rightarrow> state \<Rightarrow> state" where
  "iterate_full c i 0 s = s"
| "iterate_full c i (Suc n) s = iterate_full c (Suc i) n (loop_body c (int i) s)"

definition mandelbrot_set_full ::
  "real \<Rightarrow> real \<Rightarrow> real \<Rightarrow> real \<Rightarrow> int \<Rightarrow> int \<Rightarrow> int \<Rightarrow> error + int grid" where
  "mandelbrot_set_full xmin xmax ymin ymax width height max_iter =
     (case sample_grid xmin xmax ymin ymax width height of
        Inl e \<Rightarrow> Inl e
      | Inr c \<Rightarrow> Inr (st_div_time (iterate_full c 0 (nat max_iter) (init_state c))))"

subsection \<open>The orbit of one sample\<close>

text \<open>
  The recurrence \<open>z \<leftarrow> z\<^sup>2 + c\<close> from \<open>z = 0\<close>: \<open>orbit c k\<close> is the value after \<open>k\<close>
  updates, so the update with loop index \<open>i\<close> produces \<open>orbit c (Suc i)\<close>.
  \<open>escape_index c n\<close> is the first loop index below \<open>n\<close> whose update leaves a value of
  magnitude above \<open>2\<close>, if there is one.
\<close>

fun orbit :: "complex \<Rightarrow> nat \<Rightarrow> complex" where
  "orbit c 0 = 0"
| "orbit c (Suc k) = (orbit c k)\<^sup>2 + c"

definition escape_index :: "complex \<Rightarrow> nat \<Rightarrow> nat option" where
  "escape_index c n = find (\<lambda>i. exceeds_threshold (orbit c (Suc i))) [0..<n]"

text \<open>
  What the loop leaves in \<^verbatim>\<open>div_time\<close> for one sample: the index of the escaping
  update, and the initial \<open>0\<close> when no update below \<open>n\<close> escapes.
\<close>

definition escape_value :: "complex \<Rightarrow> int \<Rightarrow> int" where
  "escape_value c max_iter =
     (case escape_index c (nat max_iter) of None \<Rightarrow> 0 | Some i \<Rightarrow> int i)"

subsection \<open>Shapes and single cells\<close>

text \<open>
  \<open>shape h w A\<close>: the array \<open>A\<close> has \<open>h\<close> rows of \<open>w\<close> cells. A state is well shaped
  for the samples \<open>c\<close> when the three working arrays have the shape of \<open>c\<close>, as they
  have from \<open>init_state\<close> on.
\<close>

definition shape :: "nat \<Rightarrow> nat \<Rightarrow> 'a grid \<Rightarrow> bool" where
  "shape h w A = (length A = h \<and> list_all (\<lambda>row. length row = w) A)"

definition well_shaped :: "nat \<Rightarrow> nat \<Rightarrow> complex grid \<Rightarrow> state \<Rightarrow> bool" where
  "well_shaped h w c s =
     (shape h w c \<and> shape h w (st_z s) \<and> shape h w (st_div_time s) \<and> shape h w (st_mask s))"

text \<open>
  The entries of one cell, \<open>(z, div_time, mask)\<close>, and what one pass of the body does to
  them: nothing when the mask is off, otherwise the update and, if the new value
  exceeds the threshold, the recording of \<open>i\<close> and the clearing of the mask.
\<close>

definition cell_at :: "state \<Rightarrow> nat \<Rightarrow> nat \<Rightarrow> complex \<times> int \<times> bool" where
  "cell_at s r k = (st_z s ! r ! k, st_div_time s ! r ! k, st_mask s ! r ! k)"

fun cell_step :: "complex \<Rightarrow> int \<Rightarrow> complex \<times> int \<times> bool \<Rightarrow> complex \<times> int \<times> bool" where
  "cell_step cv i (zv, t, m) =
     (if m then
        (let zv' = zv\<^sup>2 + cv
         in if exceeds_threshold zv' then (zv', i, False) else (zv', t, True))
      else (zv, t, m))"

fun cell_iter ::
  "complex \<Rightarrow> nat \<Rightarrow> nat \<Rightarrow> complex \<times> int \<times> bool \<Rightarrow> complex \<times> int \<times> bool" where
  "cell_iter cv i 0 x = x"
| "cell_iter cv i (Suc n) x = cell_iter cv (Suc i) n (cell_step cv (int i) x)"

section \<open>Auxiliary facts\<close>

lemma exceeds_threshold_code [code]:
  "exceeds_threshold zv = (4 < (Re zv)\<^sup>2 + (Im zv)\<^sup>2)"
proof -
  have "(2 < cmod zv) = (sqrt 4 < sqrt ((Re zv)\<^sup>2 + (Im zv)\<^sup>2))"
    by (simp add: cmod_def)
  also have "\<dots> = (4 < (Re zv)\<^sup>2 + (Im zv)\<^sup>2)"
    by (rule real_sqrt_less_iff)
  finally show ?thesis by (simp add: exceeds_threshold_def)
qed

subsection \<open>Arrays of a given shape\<close>


lemma shape_row: "shape h w A \<Longrightarrow> r < h \<Longrightarrow> length (A ! r) = w"
  by (simp add: shape_def list_all_length)

lemma shape_grid_map: "shape h w A \<Longrightarrow> shape h w (grid_map f A)"
  by (simp add: shape_def grid_map_def list_all_length)

lemma nth_grid_map:
  "shape h w A \<Longrightarrow> r < h \<Longrightarrow> k < w \<Longrightarrow> grid_map f A ! r ! k = f (A ! r ! k)"
  by (simp add: shape_def grid_map_def list_all_length)

lemma shape_grid_map2:
  "shape h w A \<Longrightarrow> shape h w B \<Longrightarrow> shape h w (grid_map2 f A B)"
  by (simp add: shape_def grid_map2_def list_all_length)

lemma nth_grid_map2:
  "shape h w A \<Longrightarrow> shape h w B \<Longrightarrow> r < h \<Longrightarrow> k < w \<Longrightarrow>
   grid_map2 f A B ! r ! k = f (A ! r ! k) (B ! r ! k)"
  by (simp add: shape_def grid_map2_def list_all_length)

lemma shape_grid_map3:
  "shape h w A \<Longrightarrow> shape h w B \<Longrightarrow> shape h w C \<Longrightarrow> shape h w (grid_map3 f A B C)"
  by (simp add: grid_map3_def shape_grid_map2)

lemma nth_grid_map3:
  "shape h w A \<Longrightarrow> shape h w B \<Longrightarrow> shape h w C \<Longrightarrow> r < h \<Longrightarrow> k < w \<Longrightarrow>
   grid_map3 f A B C ! r ! k = f (A ! r ! k) (B ! r ! k) (C ! r ! k)"
  by (simp add: grid_map3_def shape_grid_map2 nth_grid_map2)

lemma grid_eqI:
  assumes "shape h w A" and "shape h w B"
    and "\<And>r k. r < h \<Longrightarrow> k < w \<Longrightarrow> A ! r ! k = B ! r ! k"
  shows "A = B"
proof (rule nth_equalityI)
  show "length A = length B"
    using assms(1,2) by (simp add: shape_def)
next
  fix r assume "r < length A"
  then have r: "r < h" using assms(1) by (simp add: shape_def)
  show "A ! r = B ! r"
  proof (rule nth_equalityI)
    show "length (A ! r) = length (B ! r)"
      using r assms(1,2) by (simp add: shape_row)
  next
    fix k assume "k < length (A ! r)"
    then have "k < w" using r assms(1) by (simp add: shape_row)
    then show "A ! r ! k = B ! r ! k" using r assms(3) by simp
  qed
qed

lemma grid_any_iff:
  "shape h w M \<Longrightarrow> grid_any M = (\<exists>r<h. \<exists>k<w. M ! r ! k)"
  by (auto simp add: grid_any_def shape_def list_ex_length list_all_length)


lemma well_shaped_loop_body:
  assumes "well_shaped h w c s"
  shows "well_shaped h w c (loop_body c i s)"
  using assms
  by (simp add: well_shaped_def loop_body_def Let_def shape_grid_map2 shape_grid_map3)

lemma loop_body_cell:
  assumes "well_shaped h w c s" and "r < h" and "k < w"
  shows "cell_at (loop_body c i s) r k = cell_step (c ! r ! k) i (cell_at s r k)"
proof -
  define z' where
    "z' = grid_map3 (\<lambda>m zv cv. if m then zv\<^sup>2 + cv else zv) (st_mask s) (st_z s) c"
  define diverged where
    "diverged = grid_map2 (\<lambda>m zv. if m then exceeds_threshold zv else False) (st_mask s) z'"
  have sc: "shape h w c" and sz: "shape h w (st_z s)"
    and st: "shape h w (st_div_time s)" and sm: "shape h w (st_mask s)"
    using assms(1) by (simp_all add: well_shaped_def)
  have sz': "shape h w z'"
    unfolding z'_def using sm sz sc by (rule shape_grid_map3)
  have sd: "shape h w diverged"
    unfolding diverged_def using sm sz' by (rule shape_grid_map2)
  have z'_nth: "z' ! r ! k =
      (if st_mask s ! r ! k then (st_z s ! r ! k)\<^sup>2 + c ! r ! k else st_z s ! r ! k)"
    unfolding z'_def using sm sz sc assms(2,3) by (rule nth_grid_map3)
  have d_nth: "diverged ! r ! k =
      (if st_mask s ! r ! k then exceeds_threshold (z' ! r ! k) else False)"
    unfolding diverged_def using sm sz' assms(2,3) by (rule nth_grid_map2)
  have t_nth: "grid_map2 (\<lambda>d t. if d then i else t) diverged (st_div_time s) ! r ! k =
      (if diverged ! r ! k then i else st_div_time s ! r ! k)"
    using sd st assms(2,3) by (rule nth_grid_map2)
  have m_nth: "grid_map2 (\<lambda>d m. if d then False else m) diverged (st_mask s) ! r ! k =
      (if diverged ! r ! k then False else st_mask s ! r ! k)"
    using sd sm assms(2,3) by (rule nth_grid_map2)
  have "cell_at (loop_body c i s) r k =
      (z' ! r ! k,
       grid_map2 (\<lambda>d t. if d then i else t) diverged (st_div_time s) ! r ! k,
       grid_map2 (\<lambda>d m. if d then False else m) diverged (st_mask s) ! r ! k)"
    by (simp add: loop_body_def Let_def cell_at_def z'_def diverged_def)
  also have "\<dots> = cell_step (c ! r ! k) i (cell_at s r k)"
    unfolding t_nth m_nth d_nth z'_nth by (simp add: cell_at_def Let_def)
  finally show ?thesis .
qed

lemma well_shaped_init: "shape h w c \<Longrightarrow> well_shaped h w c (init_state c)"
  by (simp add: well_shaped_def init_state_def shape_grid_map)

lemma cell_at_init:
  "shape h w c \<Longrightarrow> r < h \<Longrightarrow> k < w \<Longrightarrow> cell_at (init_state c) r k = (0, 0, True)"
  by (simp add: cell_at_def init_state_def nth_grid_map)

lemma state_eqI:
  assumes "well_shaped h w c s" and "well_shaped h w c s'"
    and "\<And>r k. r < h \<Longrightarrow> k < w \<Longrightarrow> cell_at s r k = cell_at s' r k"
  shows "s = (s' :: state)"
proof -
  have "st_z s = st_z s'"
    using assms by (intro grid_eqI[of h w]) (simp_all add: well_shaped_def cell_at_def)
  moreover have "st_div_time s = st_div_time s'"
    using assms by (intro grid_eqI[of h w]) (simp_all add: well_shaped_def cell_at_def)
  moreover have "st_mask s = st_mask s'"
    using assms by (intro grid_eqI[of h w]) (simp_all add: well_shaped_def cell_at_def)
  ultimately show ?thesis by simp
qed

lemma cell_step_inactive: "cell_step cv i (zv, t, False) = (zv, t, False)"
  by simp

lemma loop_body_idle:
  assumes ws: "well_shaped h w c s" and idle: "\<not> grid_any (st_mask s)"
  shows "loop_body c i s = s"
proof (rule state_eqI[OF well_shaped_loop_body[OF ws] ws])
  fix r k assume rk: "r < h" "k < w"
  have "shape h w (st_mask s)" using ws by (simp add: well_shaped_def)
  then have "\<not> st_mask s ! r ! k"
    using idle rk by (auto simp add: grid_any_iff)
  then have "cell_step (c ! r ! k) i (cell_at s r k) = cell_at s r k"
    by (simp add: cell_at_def)
  then show "cell_at (loop_body c i s) r k = cell_at s r k"
    using loop_body_cell[OF ws rk] by simp
qed

lemma iterate_full_idle:
  "well_shaped h w c s \<Longrightarrow> \<not> grid_any (st_mask s) \<Longrightarrow> iterate_full c i n s = s"
  by (induction n arbitrary: i) (simp_all add: loop_body_idle)

lemma iterate_eq_full:
  "well_shaped h w c s \<Longrightarrow> iterate c i n s = iterate_full c i n s"
proof (induction n arbitrary: i s)
  case 0
  show ?case by simp
next
  case (Suc n)
  let ?s' = "loop_body c (int i) s"
  have ws': "well_shaped h w c ?s'"
    using Suc.prems by (rule well_shaped_loop_body)
  show ?case
  proof (cases "grid_any (st_mask ?s')")
    case True
    then show ?thesis using Suc.IH[OF ws'] by (simp add: Let_def)
  next
    case False
    then show ?thesis using iterate_full_idle[OF ws' False] by (simp add: Let_def)
  qed
qed

lemma well_shaped_iterate_full:
  "well_shaped h w c s \<Longrightarrow> well_shaped h w c (iterate_full c i n s)"
  by (induction n arbitrary: i s) (simp_all add: well_shaped_loop_body)

lemma iterate_full_cell:
  "well_shaped h w c s \<Longrightarrow> r < h \<Longrightarrow> k < w \<Longrightarrow>
   cell_at (iterate_full c i n s) r k = cell_iter (c ! r ! k) i n (cell_at s r k)"
  by (induction n arbitrary: i s) (simp_all add: well_shaped_loop_body loop_body_cell)

lemma cell_iter_inactive: "cell_iter cv i n (zv, t, False) = (zv, t, False)"
  by (induction n arbitrary: i) simp_all

lemma cell_iter_active:
  "cell_iter cv i n (orbit cv i, t, True) =
     (case find (\<lambda>j. exceeds_threshold (orbit cv (Suc j))) [i..<i + n] of
        None \<Rightarrow> (orbit cv (i + n), t, True)
      | Some j \<Rightarrow> (orbit cv (Suc j), int j, False))"
proof (induction n arbitrary: i)
  case 0
  show ?case by simp
next
  case (Suc n)
  have upt: "[i..<i + Suc n] = i # [Suc i..<Suc i + n]"
    by (simp add: upt_rec)
  show ?case
  proof (cases "exceeds_threshold (orbit cv (Suc i))")
    case True
    then show ?thesis
      unfolding upt by (simp add: cell_iter_inactive del: upt_Suc)
  next
    case False
    then have "cell_step cv (int i) (orbit cv i, t, True) = (orbit cv (Suc i), t, True)"
      by simp
    then show ?thesis
      unfolding upt using False Suc.IH[of "Suc i"]
      by (simp del: upt_Suc cell_step.simps split: option.splits)
  qed
qed

lemma cell_iter_escape_value:
  "snd (cell_iter cv 0 (nat n) (0, 0, True)) =
     (escape_value cv n, escape_index cv (nat n) = None)"
  using cell_iter_active[of cv 0 "nat n" 0]
  by (simp add: escape_value_def escape_index_def split: option.splits)

subsection \<open>The sample grid\<close>

lemma linspace_error: "num < 0 \<Longrightarrow> linspace start stop num = Inl ValueError"
  by (simp add: linspace_def)

lemma linspace_Inr:
  "0 \<le> num \<Longrightarrow> \<exists>xs. linspace start stop num = Inr xs \<and> length xs = nat num"
  by (simp add: linspace_def Let_def)

lemma linspace_length: "linspace start stop num = Inr xs \<Longrightarrow> length xs = nat num"
  by (auto simp add: linspace_def Let_def split: if_splits)

lemma linspace_nonneg: "linspace start stop num = Inr xs \<Longrightarrow> 0 \<le> num"
  by (auto simp add: linspace_def Let_def split: if_splits)


lemma linspace_nth:
  assumes "2 \<le> num" and "k < nat num"
  shows "\<exists>xs. linspace start stop num = Inr xs \<and>
           xs ! k = start + real k * (stop - start) / real_of_int (num - 1)"
proof -
  let ?d = "real_of_int (num - 1)"
  have d: "?d \<noteq> 0" "0 < num - 1" using assms(1) by simp_all
  have last: "start + real (nat num - 1) * (stop - start) / ?d = stop"
  proof -
    have "real (nat num - 1) = ?d" using assms(1) by simp
    then show ?thesis using d by simp
  qed
  show ?thesis
  proof (cases "k = nat num - 1")
    case True
    then show ?thesis
      using assms d last by (simp add: linspace_def Let_def)
  next
    case False
    then show ?thesis
      using assms d by (auto simp add: linspace_def Let_def algebra_simps)
  qed
qed

lemma shape_broadcast_grid:
  "shape (length r2) (length r1) (broadcast_grid r1 r2)"
  by (simp add: shape_def broadcast_grid_def list_all_length)

lemma nth_broadcast_grid:
  "r < length r2 \<Longrightarrow> k < length r1 \<Longrightarrow>
   broadcast_grid r1 r2 ! r ! k = Complex (r1 ! k) (r2 ! r)"
  by (simp add: broadcast_grid_def complex_eq_iff)


lemma sample_grid_Inr:
  assumes "0 \<le> width" and "0 \<le> height"
  shows "\<exists>r1 r2. linspace xmin xmax width = Inr r1 \<and> linspace ymin ymax height = Inr r2 \<and>
           sample_grid xmin xmax ymin ymax width height = Inr (broadcast_grid r1 r2)"
  using linspace_Inr[OF assms(1), of xmin xmax] linspace_Inr[OF assms(2), of ymin ymax]
  by (auto simp add: sample_grid_def)

lemma sample_grid_shape:
  assumes "sample_grid xmin xmax ymin ymax width height = Inr c"
  shows "shape (nat height) (nat width) c"
proof -
  obtain r1 r2 where r1: "linspace xmin xmax width = Inr r1"
    and r2: "linspace ymin ymax height = Inr r2" and c: "c = broadcast_grid r1 r2"
    using assms by (auto simp add: sample_grid_def split: sum.splits)
  have "length r1 = nat width" "length r2 = nat height"
    using r1 r2 by (simp_all add: linspace_length)
  then show ?thesis
    using shape_broadcast_grid[of r2 r1] c by simp
qed

lemma sample_grid_nonneg:
  assumes "sample_grid xmin xmax ymin ymax width height = Inr c"
  shows "0 \<le> width \<and> 0 \<le> height"
  using assms
  by (auto simp add: sample_grid_def split: sum.splits dest!: linspace_nonneg)

subsection \<open>The value of every cell of the result\<close>

lemma run_cell:
  assumes c: "shape h w c" and r: "r < h" and k: "k < w"
  shows "cell_at (iterate c 0 (nat n) (init_state c)) r k =
           cell_iter (c ! r ! k) 0 (nat n) (0, 0, True)"
  using iterate_eq_full[OF well_shaped_init[OF c]]
    iterate_full_cell[OF well_shaped_init[OF c] r k] cell_at_init[OF c r k]
  by simp

lemma run_shape:
  assumes c: "shape h w c"
  shows "shape h w (st_div_time (iterate c 0 n (init_state c)))"
  using iterate_eq_full[OF well_shaped_init[OF c], of 0 n]
    well_shaped_iterate_full[OF well_shaped_init[OF c], of 0 n]
  by (simp add: well_shaped_def)

lemma mandelbrot_set_cell:
  assumes g: "sample_grid xmin xmax ymin ymax width height = Inr c"
    and r: "r < nat height" and k: "k < nat width"
  shows "\<exists>out. mandelbrot_set xmin xmax ymin ymax width height max_iter = Inr out \<and>
           shape (nat height) (nat width) out \<and>
           out ! r ! k = escape_value (c ! r ! k) max_iter"
proof -
  have c: "shape (nat height) (nat width) c"
    using g by (rule sample_grid_shape)
  let ?s = "iterate c 0 (nat max_iter) (init_state c)"
  have "mandelbrot_set xmin xmax ymin ymax width height max_iter = Inr (st_div_time ?s)"
    using g by (simp add: mandelbrot_set_def)
  moreover have "shape (nat height) (nat width) (st_div_time ?s)"
    using c by (rule run_shape)
  moreover have "st_div_time ?s ! r ! k = escape_value (c ! r ! k) max_iter"
  proof -
    have "st_div_time ?s ! r ! k = fst (snd (cell_at ?s r k))"
      by (simp add: cell_at_def)
    also have "\<dots> = fst (snd (cell_iter (c ! r ! k) 0 (nat max_iter) (0, 0, True)))"
      using run_cell[OF c r k] by simp
    also have "\<dots> = escape_value (c ! r ! k) max_iter"
      using cell_iter_escape_value[of "c ! r ! k" max_iter] by simp
    finally show ?thesis .
  qed
  ultimately show ?thesis by blast
qed

subsection \<open>Orbits and escape indices\<close>








lemma zeros_replicate:
  assumes "shape h w A"
  shows "grid_map (\<lambda>_. 0::int) A = replicate h (replicate w 0)"
proof (rule grid_eqI[of h w])
  show "shape h w (grid_map (\<lambda>_. 0::int) A)"
    using assms by (rule shape_grid_map)
  show "shape h w (replicate h (replicate w (0::int)))"
    by (simp add: shape_def list_all_length)
next
  fix r k assume "r < h" "k < w"
  then show "grid_map (\<lambda>_. 0::int) A ! r ! k = replicate h (replicate w 0) ! r ! k"
    using assms by (simp add: nth_grid_map)
qed

subsection \<open>Rows mirrored across the real axis, in exact arithmetic\<close>

text \<open>
  Conjugating a sample conjugates its orbit and keeps every magnitude, hence the value
  recorded for it. With \<open>y_min = - y_max\<close> the exact samples of \<^verbatim>\<open>np.linspace\<close> in the
  rows \<open>r\<close> and \<open>height - 1 - r\<close> are negations of each other, so that the two rows of
  the result agree. The second step uses real arithmetic: the \<^verbatim>\<open>float64\<close> samples
  \<^verbatim>\<open>r * step + start\<close> of two mirrored rows are rounded separately and need not be
  negations of each other, so \<open>row_reversal_exact\<close> is a fact of this model only and
  says nothing about the floating-point program.
\<close>

lemma orbit_cnj: "orbit (cnj cv) n = cnj (orbit cv n)"
  by (induction n) simp_all

lemma escape_value_cnj: "escape_value (cnj cv) n = escape_value cv n"
  by (simp add: escape_value_def escape_index_def exceeds_threshold_def orbit_cnj
      del: orbit.simps)

lemma linspace_mirror:
  assumes "linspace (- b) b num = Inr ys" and "r < nat num"
  shows "ys ! (nat num - 1 - r) = (if num = 1 then ys ! r else - (ys ! r))"
proof (cases "num = 1")
  case True
  then show ?thesis using assms(2) by simp
next
  case False
  then have two: "2 \<le> num" using assms(2) by simp
  let ?d = "real_of_int (num - 1)"
  have d: "?d \<noteq> 0" using two by simp
  have m: "nat num - 1 - r < nat num" using assms(2) by simp
  have a: "ys ! r = - b + real r * (b - - b) / ?d"
    using linspace_nth[OF two assms(2), of "- b" b] assms(1) by auto
  have b: "ys ! (nat num - 1 - r) = - b + real (nat num - 1 - r) * (b - - b) / ?d"
    using linspace_nth[OF two m, of "- b" b] assms(1) by auto
  have "real (nat num - 1 - r) = ?d - real r"
    using two assms(2) by (simp add: of_nat_diff)
  then have "ys ! (nat num - 1 - r) = - b + (?d - real r) * (b - - b) / ?d"
    using b by simp
  also have "\<dots> = - (- b + real r * (b - - b) / ?d)"
    using d by (simp add: field_simps)
  finally show ?thesis using a False by simp
qed

lemma row_reversal_exact:
  assumes "sample_grid xmin xmax (- ymax) ymax width height = Inr c"
    and "r < nat height" and "k < nat width"
  shows "\<exists>out. mandelbrot_set xmin xmax (- ymax) ymax width height max_iter = Inr out \<and>
           out ! (nat height - 1 - r) ! k = out ! r ! k"
proof -
  obtain xs ys where xs: "linspace xmin xmax width = Inr xs"
    and ys: "linspace (- ymax) ymax height = Inr ys" and c: "c = broadcast_grid xs ys"
    using assms(1) by (auto simp add: sample_grid_def split: sum.splits)
  have len: "length xs = nat width" "length ys = nat height"
    using xs ys by (simp_all add: linspace_length)
  let ?r' = "nat height - 1 - r"
  have r': "?r' < nat height" using assms(2) by simp
  obtain out where m: "mandelbrot_set xmin xmax (- ymax) ymax width height max_iter = Inr out"
    and v: "out ! r ! k = escape_value (c ! r ! k) max_iter"
    using mandelbrot_set_cell[OF assms] by blast
  have v': "out ! ?r' ! k = escape_value (c ! ?r' ! k) max_iter"
    using mandelbrot_set_cell[OF assms(1) r' assms(3), of max_iter] m by auto
  have p: "c ! r ! k = Complex (xs ! k) (ys ! r)"
    unfolding c using assms(2,3) len by (simp add: nth_broadcast_grid)
  have p': "c ! ?r' ! k = Complex (xs ! k) (ys ! ?r')"
    unfolding c using r' assms(3) len by (simp add: nth_broadcast_grid)
  have "c ! ?r' ! k = c ! r ! k \<or> c ! ?r' ! k = cnj (c ! r ! k)"
    unfolding p p' using linspace_mirror[OF ys assms(2)] by (simp add: complex_eq_iff)
  then have "escape_value (c ! ?r' ! k) max_iter = escape_value (c ! r ! k) max_iter"
    using escape_value_cnj[of "c ! r ! k" max_iter] by auto
  then show ?thesis using m v v' by simp
qed

section \<open>The claims\<close>

subsection \<open>C1: cells that never escape\<close>




subsection \<open>C2: degenerate regions and resolutions\<close>




subsection \<open>C3: a non-positive iteration cap\<close>

text \<open>
  Against claim C3. With \<open>max_iter = 0\<close> or \<open>max_iter = - 1\<close> the loop body never runs
  and the function returns the initial \<^verbatim>\<open>div_time\<close>, a grid of zeros; no error is
  raised.
\<close>

theorem nonpositive_max_iter_not_rejected:
  "mandelbrot_set (- 2) 1 (- 1) 1 2 2 0 = Inr [[0, 0], [0, 0]] \<and>
   mandelbrot_set (- 2) 1 (- 1) 1 2 2 (- 1) = Inr [[0, 0], [0, 0]]"
proof -
  have a: "mandelbrot_set (- 2) 1 (- 1) 1 2 2 0 = Inr [[0, 0], [0, 0]]"
    by code_simp
  have b: "mandelbrot_set (- 2) 1 (- 1) 1 2 2 (- 1) = Inr [[0, 0], [0, 0]]"
    by code_simp
  show ?thesis using a b by simp
qed

text \<open>
  Claim C3, amended. For \<open>max_iter \<le> 0\<close> and a non-negative \<open>width\<close> and \<open>height\<close> the
  function raises no error and returns the grid of \<open>height\<close> rows of \<open>width\<close> zeros.
\<close>

theorem nonpositive_max_iter_gives_zero_grid:
  assumes "max_iter \<le> 0" and "0 \<le> width" and "0 \<le> height"
  shows "mandelbrot_set xmin xmax ymin ymax width height max_iter =
           Inr (replicate (nat height) (replicate (nat width) 0))"
proof -
  obtain c where g: "sample_grid xmin xmax ymin ymax width height = Inr c"
    using sample_grid_Inr[OF assms(2,3), of xmin xmax ymin ymax] by blast
  have "shape (nat height) (nat width) c"
    using g by (rule sample_grid_shape)
  then have "st_div_time (init_state c) = replicate (nat height) (replicate (nat width) 0)"
    by (simp add: init_state_def zeros_replicate)
  moreover have "nat max_iter = 0" using assms(1) by simp
  ultimately show ?thesis using g by (simp add: mandelbrot_set_def)
qed

text \<open>The amended claim C3 for \<open>max_iter = - 1\<close> on a grid of two rows of three cells.\<close>

theorem nonpositive_max_iter_gives_zero_grid_witness:
  "(- 1::int) \<le> 0 \<and> (0::int) \<le> 3 \<and> (0::int) \<le> 2 \<and>
   mandelbrot_set (- 2) 1 (- 1) 1 3 2 (- 1) = Inr [[0, 0, 0], [0, 0, 0]]"
proof -
  have "replicate (nat 2) (replicate (nat 3) (0::int)) = [[0, 0, 0], [0, 0, 0]]"
    by (simp add: numeral_eq_Suc)
  then show ?thesis
    using nonpositive_max_iter_gives_zero_grid [of "- 1" 3 2 "- 2" 1 "- 1" 1] by simp
qed

subsection \<open>C4: cells whose mask is off are frozen\<close>

text \<open>
  Claim C4. In every well-shaped state (the initial state is one, and the loop body
  keeps states well shaped: \<open>well_shaped_init\<close>, \<open>well_shaped_loop_body\<close>), a cell whose
  mask is off keeps its \<open>z\<close> value and its recorded \<^verbatim>\<open>div_time\<close> value, and its mask
  stays off, through one pass of the loop body with any index and through any number
  of further passes of the loop: the update and the recording touch only cells whose
  mask is on.
\<close>

theorem inactive_cell_frozen:
  assumes "well_shaped h w c s" and "r < h" and "k < w" and "\<not> st_mask s ! r ! k"
  shows "st_z (loop_body c i s) ! r ! k = st_z s ! r ! k \<and>
         st_div_time (loop_body c i s) ! r ! k = st_div_time s ! r ! k \<and>
         \<not> st_mask (loop_body c i s) ! r ! k \<and>
         st_z (iterate c j n s) ! r ! k = st_z s ! r ! k \<and>
         st_div_time (iterate c j n s) ! r ! k = st_div_time s ! r ! k \<and>
         \<not> st_mask (iterate c j n s) ! r ! k"
proof -
  have off: "cell_at s r k = (st_z s ! r ! k, st_div_time s ! r ! k, False)"
    using assms(4) by (simp add: cell_at_def)
  have "cell_at (loop_body c i s) r k = cell_step (c ! r ! k) i (cell_at s r k)"
    using assms(1-3) by (rule loop_body_cell)
  then have one: "cell_at (loop_body c i s) r k = cell_at s r k"
    unfolding off by simp
  have "cell_at (iterate c j n s) r k = cell_iter (c ! r ! k) j n (cell_at s r k)"
    using iterate_eq_full[OF assms(1)] iterate_full_cell[OF assms(1-3)] by simp
  then have many: "cell_at (iterate c j n s) r k = cell_at s r k"
    unfolding off by (simp add: cell_iter_inactive)
  show ?thesis
    using one many assms(4) by (simp add: cell_at_def)
qed

text \<open>
  Claim C4 on a row of two cells, the first escaped with \<open>z = 3\<close> and the second
  active: two more passes leave the first cell as it is.
\<close>

theorem inactive_cell_frozen_witness:
  "well_shaped 1 2 [[3, 0]]
     \<lparr>st_z = [[3, 0]], st_div_time = [[0, 0]], st_mask = [[False, True]]\<rparr> \<and>
   (0::nat) < 1 \<and> (0::nat) < 2 \<and>
   \<not> st_mask \<lparr>st_z = [[3, 0]], st_div_time = [[0, 0]], st_mask = [[False, True]]\<rparr> ! 0 ! 0 \<and>
   st_z (iterate [[3, 0]] 1 2
     \<lparr>st_z = [[3, 0]], st_div_time = [[0, 0]], st_mask = [[False, True]]\<rparr>) ! 0 ! 0 = 3 \<and>
   st_div_time (iterate [[3, 0]] 1 2
     \<lparr>st_z = [[3, 0]], st_div_time = [[0, 0]], st_mask = [[False, True]]\<rparr>) ! 0 ! 0 = 0"
proof -
  let ?s = "\<lparr>st_z = [[3, 0]], st_div_time = [[0, 0]], st_mask = [[False, True]]\<rparr>"
  have ws: "well_shaped 1 2 [[3, 0]] ?s"
    by (simp add: well_shaped_def shape_def)
  have off: "\<not> st_mask ?s ! 0 ! 0" by simp
  show ?thesis
    using ws inactive_cell_frozen [OF ws _ _ off, of 0 1 2] by simp
qed

subsection \<open>C5: the recorded index\<close>



subsection \<open>C6: the early exit\<close>

text \<open>
  Claim C6. For every input, the function with the break at line 33 returns the same
  result as the function that runs all \<open>max_iter\<close> passes.
\<close>

theorem early_exit_preserves_output:
  "mandelbrot_set xmin xmax ymin ymax width height max_iter =
   mandelbrot_set_full xmin xmax ymin ymax width height max_iter"
proof (cases "sample_grid xmin xmax ymin ymax width height")
  case (Inl e)
  then show ?thesis by (simp add: mandelbrot_set_def mandelbrot_set_full_def)
next
  case (Inr c)
  have "well_shaped (nat height) (nat width) c (init_state c)"
    using Inr by (intro well_shaped_init sample_grid_shape)
  then have "iterate c 0 (nat max_iter) (init_state c) =
      iterate_full c 0 (nat max_iter) (init_state c)"
    by (rule iterate_eq_full)
  then show ?thesis using Inr by (simp add: mandelbrot_set_def mandelbrot_set_full_def)
qed

text \<open>Claim C6 on a grid of two rows and two columns with \<open>max_iter = 3\<close>.\<close>

theorem early_exit_preserves_output_witness:
  "mandelbrot_set 1 2 0 1 2 2 3 = mandelbrot_set_full 1 2 0 1 2 2 3 \<and>
   mandelbrot_set_full 1 2 0 1 2 2 3 = Inr [[2, 1], [1, 0]]"
proof -
  have "mandelbrot_set_full 1 2 0 1 2 2 3 = Inr [[2, 1], [1, 0]]"
    by code_simp
  then show ?thesis
    using early_exit_preserves_output [of 1 2 0 1 2 2 3] by simp
qed

subsection \<open>C7: the sample grid\<close>



subsection \<open>C8: raising the iteration cap\<close>




subsection \<open>C10: the layout of the result\<close>



end
